theory Spec2Isabelle
  imports Complex_Main "HOL-Library.Word"
begin

unbundle bit_operations_syntax

section \<open>The Node runtime values the assembler works on\<close>

text \<open>
  A \<open>Buffer\<close> is a sequence of bytes, a JavaScript string a sequence of UTF-16 code
  units, a JavaScript \<open>number\<close> an IEEE double, idealised here as a real (every number
  the assembler computes with is an integer far below \<open>2^53\<close>, where doubles are exact).
  Every exception the code can raise is a value of \<open>error\<close>; \<open>OtherError\<close> stands for
  the plain \<open>Error\<close> of \<open>postStream\<close> and for whatever a rejected read carries.
\<close>

type_synonym byte = "8 word"
type_synonym buffer = "byte list"
type_synonym jsstring = "16 word list"

datatype error = RangeError | TypeError | SyntaxError | OtherError

definition js :: "string \<Rightarrow> jsstring" where
  \<comment> \<open>a string literal of the source (ASCII only), as code units\<close>
  "js s = map of_char s"

definition utf8 :: "string \<Rightarrow> buffer" where
  \<comment> \<open>the bytes \<open>buf.write\<close> stores for an ASCII literal\<close>
  "utf8 s = map of_char s"

definition and_then :: "error + 'a \<Rightarrow> ('a \<Rightarrow> error + 'b) \<Rightarrow> error + 'b" where
  \<comment> \<open>statement sequencing: an exception skips the statements after it\<close>
  "and_then r f = (case r of Inl e \<Rightarrow> Inl e | Inr x \<Rightarrow> f x)"

definition Buffer_alloc :: "nat \<Rightarrow> buffer" where
  "Buffer_alloc n = replicate n 0"

definition Buffer_concat :: "buffer list \<Rightarrow> buffer" where
  "Buffer_concat bs = concat bs"

definition subarray :: "nat \<Rightarrow> buffer \<Rightarrow> buffer" where
  "subarray start b = drop start b"

definition toString_ascii :: "buffer \<Rightarrow> nat \<Rightarrow> nat \<Rightarrow> jsstring" where
  \<comment> \<open>\<open>buf.toString('ascii', start, end)\<close>: Node's ascii decoding clears the top bit of
      every byte before reading it as a character\<close>
  "toString_ascii b start end =
     map (\<lambda>x. ucast (x AND 0x7F)) (take (end - start) (drop start b))"

definition Buffer_write :: "string \<Rightarrow> nat \<Rightarrow> buffer \<Rightarrow> error + buffer" where
  \<comment> \<open>\<open>buf.write(s, offset)\<close>: an offset beyond the buffer is refused, bytes that do not
      fit are left out\<close>
  "Buffer_write s off b =
     (if length b < off then Inl RangeError
      else Inr (take (length b) (take off b @ utf8 s @ drop (off + length s) b)))"

fun le_bytes :: "nat \<Rightarrow> nat \<Rightarrow> buffer" where
  "le_bytes 0 v = []"
| "le_bytes (Suc n) v = of_nat (v mod 256) # le_bytes n (v div 256)"

definition writeUIntLE :: "nat \<Rightarrow> real \<Rightarrow> nat \<Rightarrow> buffer \<Rightarrow> error + buffer" where
  \<comment> \<open>Node's \<open>writeUInt32LE\<close>/\<open>writeUInt16LE\<close>: the value is range-checked first, then the
      offset; the integer part of the value is stored, low byte first\<close>
  "writeUIntLE w v off b =
     (if v > 2 ^ (8 * w) - 1 \<or> v < 0 then Inl RangeError
      else if length b < off + w then Inl RangeError
      else Inr (take off b @ le_bytes w (nat \<lfloor>v\<rfloor>) @ drop (off + w) b))"

definition writeUInt32LE :: "real \<Rightarrow> nat \<Rightarrow> buffer \<Rightarrow> error + buffer" where
  "writeUInt32LE = writeUIntLE 4"

definition writeUInt16LE :: "real \<Rightarrow> nat \<Rightarrow> buffer \<Rightarrow> error + buffer" where
  "writeUInt16LE = writeUIntLE 2"

fun le_val :: "buffer \<Rightarrow> nat" where
  "le_val [] = 0"
| "le_val (x # xs) = unat x + 256 * le_val xs"

definition readUInt32LE :: "buffer \<Rightarrow> nat \<Rightarrow> nat" where
  \<comment> \<open>how a WAV reader reads bytes \<open>off..off+4\<close>, little-endian\<close>
  "readUInt32LE b off = le_val (take 4 (drop off b))"

section \<open>src/utils/audio.ts\<close>

definition hasWavHeader :: "buffer \<Rightarrow> bool" where
  "hasWavHeader buffer =
     (if length buffer < 12 then False
      else let riff = toString_ascii buffer 0 4;
               wave = toString_ascii buffer 8 12
           in riff = js ''RIFF'' \<and> wave = js ''WAVE'')"

definition stripWavHeader :: "buffer \<Rightarrow> buffer" where
  "stripWavHeader buffer =
     (if hasWavHeader buffer \<and> length buffer > 44 then subarray 44 buffer else buffer)"

definition createWavHeader :: "real \<Rightarrow> real \<Rightarrow> real \<Rightarrow> real \<Rightarrow> error + buffer" where
  "createWavHeader dataLength sampleRate channels bitsPerSample =
     (let byteRate = (sampleRate * channels * bitsPerSample) / 8;
          blockAlign = (channels * bitsPerSample) / 8;
          fileSize = 36 + dataLength;
          header = Buffer_alloc 44
      in and_then (Buffer_write ''RIFF'' 0 header) (\<lambda>header.
         and_then (writeUInt32LE fileSize 4 header) (\<lambda>header.
         and_then (Buffer_write ''WAVE'' 8 header) (\<lambda>header.
         and_then (Buffer_write ''fmt '' 12 header) (\<lambda>header.
         and_then (writeUInt32LE 16 16 header) (\<lambda>header.
         and_then (writeUInt16LE 1 20 header) (\<lambda>header.
         and_then (writeUInt16LE channels 22 header) (\<lambda>header.
         and_then (writeUInt32LE sampleRate 24 header) (\<lambda>header.
         and_then (writeUInt32LE byteRate 28 header) (\<lambda>header.
         and_then (writeUInt16LE blockAlign 32 header) (\<lambda>header.
         and_then (writeUInt16LE bitsPerSample 34 header) (\<lambda>header.
         and_then (Buffer_write ''data'' 36 header) (\<lambda>header.
         and_then (writeUInt32LE dataLength 40 header) (\<lambda>header.
         Inr header))))))))))))))"

definition assembleWav :: "buffer list \<Rightarrow> real \<Rightarrow> error + buffer" where
  "assembleWav chunks sampleRate =
     (let rawData = Buffer_concat chunks
      in and_then (createWavHeader (real (length rawData)) sampleRate 1 16) (\<lambda>header.
         Inr (Buffer_concat [header, rawData])))"



section \<open>The Web and Node built-ins the decode loop calls\<close>

subsection \<open>\<open>TextDecoder\<close>: the streaming UTF-8 decoder of the Encoding Standard\<close>

record utf8_decoder =
  code_point :: nat
  bytes_seen :: nat
  bytes_needed :: nat
  lower_boundary :: nat
  upper_boundary :: nat
  bom_seen :: bool

definition new_TextDecoder :: utf8_decoder where
  "new_TextDecoder =
     \<lparr>code_point = 0, bytes_seen = 0, bytes_needed = 0,
      lower_boundary = 0x80, upper_boundary = 0xBF, bom_seen = False\<rparr>"

definition utf8_lead :: "utf8_decoder \<Rightarrow> nat \<Rightarrow> utf8_decoder \<times> nat list" where
  \<comment> \<open>the handler when no continuation byte is awaited; the second component holds the
      scalar values emitted, \<open>0xFFFD\<close> for a decoding error\<close>
  "utf8_lead d b =
     (if b \<le> 0x7F then (d, [b])
      else if 0xC2 \<le> b \<and> b \<le> 0xDF then
        (d\<lparr>bytes_needed := 1, code_point := b mod 32\<rparr>, [])
      else if 0xE0 \<le> b \<and> b \<le> 0xEF then
        (d\<lparr>lower_boundary := (if b = 0xE0 then 0xA0 else lower_boundary d),
           upper_boundary := (if b = 0xED then 0x9F else upper_boundary d),
           bytes_needed := 2, code_point := b mod 16\<rparr>, [])
      else if 0xF0 \<le> b \<and> b \<le> 0xF4 then
        (d\<lparr>lower_boundary := (if b = 0xF0 then 0x90 else lower_boundary d),
           upper_boundary := (if b = 0xF4 then 0x8F else upper_boundary d),
           bytes_needed := 3, code_point := b mod 8\<rparr>, [])
      else (d, [0xFFFD]))"

definition utf8_handler :: "utf8_decoder \<Rightarrow> nat \<Rightarrow> utf8_decoder \<times> nat list" where
  \<comment> \<open>one byte through the decoder; a byte that breaks a sequence is an error and is then
      read again as a first byte\<close>
  "utf8_handler d b =
     (if bytes_needed d = 0 then utf8_lead d b
      else if b < lower_boundary d \<or> upper_boundary d < b then
        (let d0 = d\<lparr>code_point := 0, bytes_needed := 0, bytes_seen := 0,
                      lower_boundary := 0x80, upper_boundary := 0xBF\<rparr>;
             (d1, out) = utf8_lead d0 b
         in (d1, 0xFFFD # out))
      else
        (let d1 = d\<lparr>lower_boundary := 0x80, upper_boundary := 0xBF,
                      code_point := code_point d * 64 + b mod 64,
                      bytes_seen := bytes_seen d + 1\<rparr>
         in if bytes_seen d1 \<noteq> bytes_needed d1 then (d1, [])
            else (d1\<lparr>code_point := 0, bytes_needed := 0, bytes_seen := 0\<rparr>, [code_point d1])))"

fun utf8_run :: "utf8_decoder \<Rightarrow> buffer \<Rightarrow> utf8_decoder \<times> nat list" where
  "utf8_run d [] = (d, [])"
| "utf8_run d (b # bs) =
     (let (d1, out1) = utf8_handler d (unat b);
          (d2, out2) = utf8_run d1 bs
      in (d2, out1 @ out2))"

definition serialize :: "bool \<Rightarrow> nat list \<Rightarrow> bool \<times> nat list" where
  \<comment> \<open>the first scalar value of the whole stream is dropped when it is the byte order mark\<close>
  "serialize seen out =
     (case out of [] \<Rightarrow> (seen, [])
      | x # xs \<Rightarrow> if seen then (True, x # xs)
                  else if x = 0xFEFF then (True, xs) else (True, x # xs))"

definition code_units :: "nat \<Rightarrow> jsstring" where
  \<comment> \<open>a scalar value as UTF-16 code units of a JavaScript string\<close>
  "code_units cp =
     (if cp < 0x10000 then [of_nat cp]
      else [of_nat (0xD800 + (cp - 0x10000) div 1024), of_nat (0xDC00 + (cp - 0x10000) mod 1024)])"

definition TextDecoder_decode :: "utf8_decoder \<Rightarrow> buffer \<Rightarrow> utf8_decoder \<times> jsstring" where
  \<comment> \<open>\<open>decoder.decode(value, { stream: true })\<close>: an unfinished sequence stays in the decoder\<close>
  "TextDecoder_decode d v =
     (let (d1, out) = utf8_run d v;
          (seen, out') = serialize (bom_seen d1) out
      in (d1\<lparr>bom_seen := seen\<rparr>, concat (map code_units out')))"

subsection \<open>Strings\<close>

definition nl :: "16 word" where
  "nl = 0x0A"

fun String_split :: "16 word \<Rightarrow> jsstring \<Rightarrow> jsstring list" where
  "String_split sep [] = [[]]"
| "String_split sep (c # cs) =
     (if c = sep then [] # String_split sep cs
      else (case String_split sep cs of [] \<Rightarrow> [[c]] | l # ls \<Rightarrow> (c # l) # ls))"

definition isWhiteSpace :: "16 word \<Rightarrow> bool" where
  \<comment> \<open>the white space and line terminators \<open>String.prototype.trim\<close> removes\<close>
  "isWhiteSpace c =
     (let n = unat c
      in n \<in> {0x09, 0x0A, 0x0B, 0x0C, 0x0D, 0x20, 0xA0, 0x1680, 0x2028, 0x2029, 0x202F,
               0x205F, 0x3000, 0xFEFF}
         \<or> (0x2000 \<le> n \<and> n \<le> 0x200A))"

definition String_trim :: "jsstring \<Rightarrow> jsstring" where
  "String_trim s = rev (dropWhile isWhiteSpace (rev (dropWhile isWhiteSpace s)))"

definition substring :: "nat \<Rightarrow> nat \<Rightarrow> jsstring \<Rightarrow> jsstring" where
  "substring start end s = take (end - start) (drop start s)"

subsection \<open>JSON values and property reads\<close>

datatype json = JNull | JBool bool | JNum real | JStr jsstring | JArr "json list"
  | JObj "(jsstring \<times> json) list"

fun getProp :: "json \<Rightarrow> jsstring \<Rightarrow> error + json option" where
  \<comment> \<open>\<open>v.k\<close> for the two names the loop reads, which no built-in prototype defines:
      \<open>None\<close> is \<open>undefined\<close>; of a repeated key \<open>JSON.parse\<close> keeps the last value\<close>
  "getProp JNull k = Inl TypeError"
| "getProp (JObj members) k = Inr (map_of (rev members) k)"
| "getProp v k = Inr None"

definition audioContent_of :: "json \<Rightarrow> error + json option" where
  \<comment> \<open>\<open>chunk.result?.audioContent\<close>\<close>
  "audioContent_of chunk =
     and_then (getProp chunk (js ''result'')) (\<lambda>result.
       case result of None \<Rightarrow> Inr None
       | Some JNull \<Rightarrow> Inr None
       | Some r \<Rightarrow> getProp r (js ''audioContent''))"

fun truthy :: "json \<Rightarrow> bool" where
  "truthy JNull = False"
| "truthy (JBool b) = b"
| "truthy (JNum n) = (n \<noteq> 0)"
| "truthy (JStr s) = (s \<noteq> [])"
| "truthy (JArr xs) = True"
| "truthy (JObj members) = True"

subsection \<open>\<open>Buffer.from(s, 'base64')\<close>\<close>

definition unbase64 :: "nat \<Rightarrow> nat option" where
  \<comment> \<open>Node's table: both the standard and the URL-safe alphabet\<close>
  "unbase64 c =
     (if 65 \<le> c \<and> c \<le> 90 then Some (c - 65)
      else if 97 \<le> c \<and> c \<le> 122 then Some (c - 71)
      else if 48 \<le> c \<and> c \<le> 57 then Some (c + 4)
      else if c = 43 \<or> c = 45 then Some 62
      else if c = 47 \<or> c = 95 then Some 63
      else None)"

fun sextets :: "nat list \<Rightarrow> nat list" where
  \<comment> \<open>decoding stops at the first \<open>=\<close>; any other character outside the alphabet is passed over\<close>
  "sextets [] = []"
| "sextets (c # cs) =
     (if c = 61 then []
      else case unbase64 c of None \<Rightarrow> sextets cs | Some v \<Rightarrow> v # sextets cs)"

fun sextet_bytes :: "nat list \<Rightarrow> buffer" where
  "sextet_bytes (a # b # c # d # vs) =
     of_nat (a * 4 + b div 16) # of_nat (b mod 16 * 16 + c div 4) # of_nat (c mod 4 * 64 + d)
       # sextet_bytes vs"
| "sextet_bytes [a, b, c] = [of_nat (a * 4 + b div 16), of_nat (b mod 16 * 16 + c div 4)]"
| "sextet_bytes [a, b] = [of_nat (a * 4 + b div 16)]"
| "sextet_bytes vs = []"

definition base64_decode :: "jsstring \<Rightarrow> buffer" where
  \<comment> \<open>Node's forgiving decoder reads the low byte of every code unit and never throws\<close>
  "base64_decode s = sextet_bytes (sextets (map (\<lambda>c. unat c mod 256) s))"

subsection \<open>What stays a parameter\<close>

text \<open>
  \<open>JSON.parse\<close> (\<open>None\<close> when it throws its SyntaxError), \<open>Buffer.from\<close> applied to an array
  or an object (array-likes, \<open>valueOf\<close>, \<open>{type: 'Buffer', data}\<close>), and the clock:
  \<open>performance_now rt k\<close> is what the \<open>k\<close>-th call of \<open>performance.now()\<close> returns.
\<close>

record runtime =
  JSON_parse :: "jsstring \<Rightarrow> json option"
  Buffer_from_object :: "json \<Rightarrow> error + buffer"
  performance_now :: "nat \<Rightarrow> real"

fun Buffer_from_base64 :: "runtime \<Rightarrow> json \<Rightarrow> error + buffer" where
  "Buffer_from_base64 rt (JStr s) = Inr (base64_decode s)"
| "Buffer_from_base64 rt JNull = Inl TypeError"
| "Buffer_from_base64 rt (JBool b) = Inl TypeError"
| "Buffer_from_base64 rt (JNum n) = Inl TypeError"
| "Buffer_from_base64 rt v = Buffer_from_object rt v"

definition decodeBase64 :: "runtime \<Rightarrow> json \<Rightarrow> error + buffer" where
  \<comment> \<open>src/utils/audio.ts; at run time the argument is whatever the record holds\<close>
  "decodeBase64 rt base64 = Buffer_from_base64 rt base64"

section \<open>src/inworld/tts.ts: \<open>streamSpeech\<close>\<close>

text \<open>
  The response body is given by the values its reader delivers, in order, and by how it
  ends. The \<open>while (true)\<close> loop is a recursion over these values; a body that never ends
  has no such list, and \<open>streamSpeech\<close> never returns for it. The variables the loop updates
  are threaded through as records.
\<close>

record progress =
  chunks :: "buffer list"
  firstChunkTime :: "real option"
  clock :: nat  \<comment> \<open>how often \<open>performance.now()\<close> has been called\<close>

record reader =
  decoder :: utf8_decoder
  buffer :: jsstring

record StreamStats =
  timeToFirstChunk :: real
  totalTime :: real

record speech =
  audioBuffer :: buffer
  stats :: StreamStats

datatype upstream =
    Rejected error  \<comment> \<open>\<open>postStream\<close> throws: no key, a status that is not ok, no body\<close>
  | Stream "buffer list" "error option"
      \<comment> \<open>the values \<open>reader.read()\<close> delivers, then \<open>done\<close> (\<open>None\<close>) or a rejected read\<close>


definition markFirstChunk :: "runtime \<Rightarrow> progress \<Rightarrow> progress" where
  \<comment> \<open>\<open>if (firstChunkTime === null) firstChunkTime = performance.now()\<close>\<close>
  "markFirstChunk rt p =
     (if firstChunkTime p = None
      then p\<lparr>firstChunkTime := Some (performance_now rt (clock p)), clock := Suc (clock p)\<rparr>
      else p)"

definition processLine :: "runtime \<Rightarrow> progress \<Rightarrow> jsstring \<Rightarrow> progress \<times> jsstring list" where
  \<comment> \<open>the body of \<open>for (const line of lines)\<close>: the loop's variables afterwards, and what
      \<open>console.warn\<close> printed\<close>
  "processLine rt p line =
     (if String_trim line = [] then (p, [])
      else let warn = [substring 0 100 line]
        in case JSON_parse rt line of
             None \<Rightarrow> (p, warn)
           | Some chunk \<Rightarrow>
              (case audioContent_of chunk of
                 Inl e \<Rightarrow> (p, warn)
               | Inr None \<Rightarrow> (p, [])
               | Inr (Some a) \<Rightarrow>
                  if truthy a then
                    let p1 = markFirstChunk rt p
                    in (case decodeBase64 rt a of
                          Inl e \<Rightarrow> (p1, warn)
                        | Inr audioData \<Rightarrow>
                            (p1\<lparr>chunks := chunks p1 @ [stripWavHeader audioData]\<rparr>, []))
                  else (p, [])))"

fun processLines :: "runtime \<Rightarrow> progress \<Rightarrow> jsstring list \<Rightarrow> progress \<times> jsstring list" where
  "processLines rt p [] = (p, [])"
| "processLines rt p (line # lines) =
     (let (p1, w1) = processLine rt p line;
          (p2, w2) = processLines rt p1 lines
      in (p2, w1 @ w2))"

definition readStep ::
  "runtime \<Rightarrow> reader \<times> progress \<Rightarrow> buffer \<Rightarrow> (reader \<times> progress) \<times> jsstring list" where
  \<comment> \<open>one turn of \<open>while (true)\<close> for a read that is not \<open>done\<close>\<close>
  "readStep rt s v =
     (let (r, p) = s;
          (d, text) = TextDecoder_decode (decoder r) v;
          buffer1 = buffer r @ text;
          lines = String_split nl buffer1;
          buffer2 = last lines;
          (p', w) = processLines rt p (butlast lines)
      in ((\<lparr>decoder = d, buffer = buffer2\<rparr>, p'), w))"

fun readLoop ::
  "runtime \<Rightarrow> reader \<times> progress \<Rightarrow> buffer list \<Rightarrow> (reader \<times> progress) \<times> jsstring list" where
  "readLoop rt s [] = (s, [])"
| "readLoop rt s (v # vs) =
     (let (s1, w1) = readStep rt s v;
          (s2, w2) = readLoop rt s1 vs
      in (s2, w1 @ w2))"

definition streamSpeech ::
  "runtime \<Rightarrow> real \<Rightarrow> upstream \<Rightarrow> jsstring list \<times> (error + speech)" where
  \<comment> \<open>the console output, and the value returned or the exception raised\<close>
  "streamSpeech rt sampleRate up =
     (let startTime = performance_now rt 0;
          p0 = \<lparr>chunks = [], firstChunkTime = None, clock = 1\<rparr>
      in case up of
           Rejected e \<Rightarrow> ([], Inl e)
         | Stream reads ending \<Rightarrow>
            (let r0 = \<lparr>decoder = new_TextDecoder, buffer = []\<rparr>;
                 ((r, p), w) = readLoop rt (r0, p0) reads
             in case ending of
                  Some e \<Rightarrow> (w, Inl e)
                | None \<Rightarrow>
                   (let endTime = performance_now rt (clock p)
                    in (w, and_then (assembleWav (chunks p) sampleRate) (\<lambda>audioBuffer.
                          Inr \<lparr>audioBuffer = audioBuffer,
                               stats = \<lparr>timeToFirstChunk =
                                          (case firstChunkTime p of
                                             None \<Rightarrow> 0
                                           | Some t \<Rightarrow> if t \<noteq> 0 then t - startTime else 0),
                                        totalTime = endTime - startTime\<rparr>\<rparr>)))))"

section \<open>Derived notions\<close>

definition decoded_text :: "buffer \<Rightarrow> jsstring" where
  \<comment> \<open>the text a fresh streaming decoder yields for a byte sequence\<close>
  "decoded_text bytes = snd (TextDecoder_decode new_TextDecoder bytes)"

definition complete_lines :: "jsstring \<Rightarrow> jsstring list" where
  \<comment> \<open>the lines of a text that end in a newline\<close>
  "complete_lines t = butlast (String_split nl t)"

definition last_line :: "jsstring \<Rightarrow> jsstring" where
  \<comment> \<open>what follows the last newline of a text\<close>
  "last_line t = last (String_split nl t)"

definition initial :: "reader \<times> progress" where
  \<comment> \<open>the variables of \<open>streamSpeech\<close> when its loop starts\<close>
  "initial = (\<lparr>decoder = new_TextDecoder, buffer = []\<rparr>,
              \<lparr>chunks = [], firstChunkTime = None, clock = 1\<rparr>)"

definition stream_lines :: "buffer list \<Rightarrow> jsstring list" where
  \<comment> \<open>the newline-terminated lines of the text of a whole stream\<close>
  "stream_lines reads = complete_lines (decoded_text (concat reads))"

definition decoded_chunks :: "runtime \<Rightarrow> buffer list \<Rightarrow> buffer list" where
  \<comment> \<open>the payload sequence the loop has collected when the stream is done\<close>
  "decoded_chunks rt reads =
     chunks (snd (fst (readLoop rt initial reads)))"

definition monotone_clock :: "runtime \<Rightarrow> bool" where
  \<comment> \<open>\<open>performance.now()\<close> never runs backwards\<close>
  "monotone_clock rt = (\<forall>i j. i \<le> j \<longrightarrow> performance_now rt i \<le> performance_now rt j)"

definition clock_from_origin :: "runtime \<Rightarrow> bool" where
  \<comment> \<open>\<open>performance.now()\<close> counts from its time origin, which lies before every call: no
      reading is negative\<close>
  "clock_from_origin rt = (0 \<le> performance_now rt 0)"

definition string_or_falsy :: "json \<Rightarrow> bool" where
  \<comment> \<open>an \<open>audioContent\<close> as \<open>TTSStreamChunk\<close> declares it: a string, when it counts at all\<close>
  "string_or_falsy a = (case a of JStr s \<Rightarrow> True | v \<Rightarrow> \<not> truthy v)"

definition typed_record :: "runtime \<Rightarrow> jsstring \<Rightarrow> bool" where
  "typed_record rt line =
     (case JSON_parse rt line of
        None \<Rightarrow> True
      | Some chunk \<Rightarrow>
         (case audioContent_of chunk of Inr (Some a) \<Rightarrow> string_or_falsy a | _ \<Rightarrow> True))"

definition line_chunks :: "runtime \<Rightarrow> jsstring \<Rightarrow> buffer list" where
  \<comment> \<open>the chunks one line adds to the payload\<close>
  "line_chunks rt line =
     chunks (fst (processLine rt \<lparr>chunks = [], firstChunkTime = None, clock = 0\<rparr> line))"

definition line_warnings :: "runtime \<Rightarrow> jsstring \<Rightarrow> jsstring list" where
  \<comment> \<open>what one line makes \<open>console.warn\<close> print\<close>
  "line_warnings rt line =
     snd (processLine rt \<lparr>chunks = [], firstChunkTime = None, clock = 0\<rparr> line)"

definition same_builtins :: "runtime \<Rightarrow> runtime \<Rightarrow> bool" where
  \<comment> \<open>two runs that differ at most in what their clocks read\<close>
  "same_builtins rt rt' =
     (JSON_parse rt' = JSON_parse rt \<and> Buffer_from_object rt' = Buffer_from_object rt)"

definition audio_of :: "jsstring list \<times> (error + speech) \<Rightarrow> error + buffer" where
  \<comment> \<open>the audio of an outcome of \<open>streamSpeech\<close>, or its exception\<close>
  "audio_of outcome = (case snd outcome of Inl e \<Rightarrow> Inl e | Inr out \<Rightarrow> Inr (audioBuffer out))"

definition loop_inv :: "runtime \<Rightarrow> progress \<Rightarrow> bool" where
  \<comment> \<open>what holds of the loop's variables all along: the clock is read a second time
      exactly when the first audio record is met\<close>
  "loop_inv rt p =
     (case firstChunkTime p of
        None \<Rightarrow> clock p = 1 \<and> chunks p = []
      | Some t \<Rightarrow> t = performance_now rt 1 \<and> clock p = 2)"

section \<open>Example records and an example runtime\<close>

definition quoted :: "string \<Rightarrow> jsstring" where
  "quoted s = [0x22] @ js s @ [0x22]"

definition audio_line :: "jsstring \<Rightarrow> jsstring" where
  \<comment> \<open>the line \<open>{"result":{"audioContent":"..."}}\<close>\<close>
  "audio_line b64 =
     js ''{'' @ quoted ''result'' @ js '':{'' @ quoted ''audioContent'' @ js '':''
       @ [0x22] @ b64 @ [0x22] @ js ''}}''"

definition audio_record :: "json \<Rightarrow> json" where
  "audio_record a = JObj [(js ''result'', JObj [(js ''audioContent'', a)])]"

definition number_line :: jsstring where
  \<comment> \<open>the line \<open>{"result":{"audioContent":5}}\<close>\<close>
  "number_line =
     js ''{'' @ quoted ''result'' @ js '':{'' @ quoted ''audioContent'' @ js '':5}}''"

definition control_line :: jsstring where
  \<comment> \<open>the line \<open>{"result":{}}\<close>\<close>
  "control_line = js ''{'' @ quoted ''result'' @ js '':{}}''"

definition example_parse :: "jsstring \<Rightarrow> json option" where
  \<comment> \<open>\<open>JSON.parse\<close> on the lines of the examples; any other line of the examples is not
      JSON\<close>
  "example_parse =
     map_of [(audio_line (js ''QUJD''), audio_record (JStr (js ''QUJD''))),
             (audio_line (js ''RUZH''), audio_record (JStr (js ''RUZH''))),
             (audio_line (js ''Q!UJ''), audio_record (JStr (js ''Q!UJ''))),
             (audio_line [], audio_record (JStr [])),
             (number_line, audio_record (JNum 5)),
             (control_line, JObj [(js ''result'', JObj [])])]"

definition example_runtime :: runtime where
  "example_runtime =
     \<lparr>JSON_parse = example_parse,
      Buffer_from_object = (\<lambda>v. Inl TypeError),
      performance_now = (\<lambda>k. 10 + 5 * real k)\<rparr>"

definition example_runtime_late :: runtime where
  \<comment> \<open>the same built-ins with another clock\<close>
  "example_runtime_late = example_runtime\<lparr>performance_now := (\<lambda>k. 100 + 40 * real k)\<rparr>"

definition to_bytes :: "jsstring \<Rightarrow> buffer" where
  \<comment> \<open>the UTF-8 bytes of an ASCII text\<close>
  "to_bytes t = map ucast t"

section \<open>Lemmas\<close>

subsection \<open>Little-endian fields\<close>

lemma length_le_bytes [simp]: "length (le_bytes n v) = n"
  by (induction n arbitrary: v) simp_all

lemma le_val_le_bytes: "le_val (le_bytes n v) = v mod 256 ^ n"
proof (induction n arbitrary: v)
  case 0
  then show ?case by simp
next
  case (Suc n)
  have "unat (of_nat (v mod 256) :: byte) = v mod 256"
    by (simp add: unat_of_nat)
  then show ?case using Suc
    by (simp add: mod_mult2_eq)
qed

lemma read_at:
  "length pre = off \<Longrightarrow> v < 2 ^ 32 \<Longrightarrow> readUInt32LE (pre @ le_bytes 4 v @ post) off = v"
  by (simp add: readUInt32LE_def le_val_le_bytes)

lemma floor_double: "nat \<lfloor>2 * real R\<rfloor> = 2 * R"
proof -
  have "2 * real R = real (2 * R)" by simp
  then show ?thesis by (simp only: floor_of_nat nat_int)
qed

subsection \<open>The header \<open>createWavHeader\<close> builds\<close>

lemma header_shape:
  assumes "R < 2 ^ 31" and "D + 36 < 2 ^ 32"
  shows "createWavHeader (real D) (real R) 1 16 =
     Inr (utf8 ''RIFF'' @ le_bytes 4 (36 + D) @ utf8 ''WAVE'' @ utf8 ''fmt '' @ le_bytes 4 16
          @ le_bytes 2 1 @ le_bytes 2 1 @ le_bytes 4 R @ le_bytes 4 (2 * R) @ le_bytes 2 2
          @ le_bytes 2 16 @ utf8 ''data'' @ le_bytes 4 D)"
  using assms
  by (simp add: createWavHeader_def Buffer_alloc_def Buffer_write_def and_then_def utf8_def
      writeUInt32LE_def writeUInt16LE_def writeUIntLE_def Let_def floor_double nat_add_distrib)

lemma assembleWav_shape:
  assumes "R < 2 ^ 31" and "length (concat cs) + 36 < 2 ^ 32"
  shows "assembleWav cs (real R) =
     Inr (utf8 ''RIFF'' @ le_bytes 4 (36 + length (concat cs)) @ utf8 ''WAVE''
          @ utf8 ''fmt '' @ le_bytes 4 16 @ le_bytes 2 1 @ le_bytes 2 1 @ le_bytes 4 R
          @ le_bytes 4 (2 * R) @ le_bytes 2 2 @ le_bytes 2 16 @ utf8 ''data''
          @ le_bytes 4 (length (concat cs)) @ concat cs)"
  using header_shape [OF assms]
  by (simp add: assembleWav_def Buffer_concat_def and_then_def Let_def)

lemma assembleWav_raises:
  "R < 0 \<or> 2 ^ 31 \<le> R \<or> 2 ^ 32 \<le> length (concat cs) + 36
     \<Longrightarrow> assembleWav cs (real_of_int R) = Inl RangeError"
  by (auto simp: assembleWav_def createWavHeader_def Buffer_alloc_def Buffer_write_def
      and_then_def utf8_def writeUInt32LE_def writeUInt16LE_def writeUIntLE_def Let_def
      Buffer_concat_def)

subsection \<open>Header detection and stripping\<close>











lemma strip_eq:
  "stripWavHeader b = (if hasWavHeader b \<and> 44 < length b then drop 44 b else b)"
  by (simp add: stripWavHeader_def subarray_def)


subsection \<open>Lines of a text\<close>

lemma split_not_Nil [simp]: "String_split sep t \<noteq> []"
  by (induction t) (auto split: list.splits)

lemma complete_lines_Nil [simp]: "complete_lines [] = []" and last_line_Nil [simp]: "last_line [] = []"
  by (simp_all add: complete_lines_def last_line_def)

lemma split_Cons_nl: "String_split nl (nl # t) = [] # String_split nl t"
  by simp

lemma split_Cons_other:
  "c \<noteq> nl \<Longrightarrow> String_split nl t = l # ls \<Longrightarrow> String_split nl (c # t) = (c # l) # ls"
  by simp

lemma complete_lines_Cons:
  "complete_lines (c # t) =
     (if c = nl then [] # complete_lines t
      else case complete_lines t of [] \<Rightarrow> [] | l # ls \<Rightarrow> (c # l) # ls)"
proof (cases "String_split nl t")
  case Nil
  then show ?thesis using split_not_Nil [of nl t] by simp
next
  case (Cons l ls)
  show ?thesis
  proof (cases "c = nl")
    case True
    then show ?thesis by (simp add: complete_lines_def)
  next
    case False
    from split_Cons_other [OF False Cons] Cons show ?thesis
      unfolding complete_lines_def using False by (cases ls) simp_all
  qed
qed

lemma last_line_Cons:
  "last_line (c # t) = (if c \<noteq> nl \<and> complete_lines t = [] then c # last_line t else last_line t)"
proof (cases "String_split nl t")
  case Nil
  then show ?thesis using split_not_Nil [of nl t] by simp
next
  case (Cons l ls)
  show ?thesis
  proof (cases "c = nl")
    case True
    then show ?thesis by (simp add: last_line_def)
  next
    case False
    from split_Cons_other [OF False Cons] Cons show ?thesis
      unfolding complete_lines_def last_line_def using False by (cases ls) simp_all
  qed
qed

lemma complete_lines_append:
  "complete_lines (a @ b) = complete_lines a @ complete_lines (last_line a @ b)"
proof (induction a)
  case Nil
  then show ?case by simp
next
  case (Cons c a)
  show ?case
  proof (cases "c = nl")
    case True
    then show ?thesis using Cons by (simp add: complete_lines_Cons last_line_Cons)
  next
    case False
    show ?thesis
    proof (cases "complete_lines a")
      case Nil
      with False Cons show ?thesis by (simp add: complete_lines_Cons last_line_Cons)
    next
      case (Cons l ls)
      with False Cons.IH show ?thesis by (simp add: complete_lines_Cons last_line_Cons)
    qed
  qed
qed

lemma last_line_append: "last_line (a @ b) = last_line (last_line a @ b)"
proof (induction a)
  case Nil
  then show ?case by simp
next
  case (Cons c a)
  show ?case
  proof (cases "c \<noteq> nl \<and> complete_lines a = []")
    case True
    then have "complete_lines (a @ b) = complete_lines (last_line a @ b)"
      using complete_lines_append [of a b] by simp
    with True Cons show ?thesis
      by (simp add: last_line_Cons)
  next
    case False
    then have "c = nl \<or> complete_lines (a @ b) \<noteq> []"
      using complete_lines_append [of a b] by auto
    with False Cons show ?thesis
      by (auto simp add: last_line_Cons)
  qed
qed

lemma no_nl_split: "nl \<notin> set b \<Longrightarrow> String_split nl b = [b]"
  by (induction b) auto

lemma complete_lines_no_nl: "nl \<notin> set b \<Longrightarrow> complete_lines b = []"
  and last_line_no_nl: "nl \<notin> set b \<Longrightarrow> last_line b = b"
  by (simp_all add: complete_lines_def last_line_def no_nl_split)

lemma last_line_has_no_nl: "nl \<notin> set (last_line t)"
proof (induction t)
  case Nil
  then show ?case by simp
next
  case (Cons c t)
  then show ?case by (auto simp add: last_line_Cons)
qed

subsection \<open>The decoder and the loop over any split of the stream\<close>

lemma utf8_run_append:
  "utf8_run d (a @ b) =
     (fst (utf8_run (fst (utf8_run d a)) b), snd (utf8_run d a) @ snd (utf8_run (fst (utf8_run d a)) b))"
  by (induction a arbitrary: d) (simp_all add: split_def Let_def)

lemma utf8_lead_bom:
  "utf8_lead (d\<lparr>bom_seen := s\<rparr>) b = (fst (utf8_lead d b)\<lparr>bom_seen := s\<rparr>, snd (utf8_lead d b))"
  by (simp add: utf8_lead_def)

lemma utf8_handler_bom:
  "utf8_handler (d\<lparr>bom_seen := s\<rparr>) b = (fst (utf8_handler d b)\<lparr>bom_seen := s\<rparr>, snd (utf8_handler d b))"
  by (simp add: utf8_handler_def utf8_lead_def split_def Let_def)

lemma utf8_run_bom:
  "utf8_run (d\<lparr>bom_seen := s\<rparr>) v = (fst (utf8_run d v)\<lparr>bom_seen := s\<rparr>, snd (utf8_run d v))"
  by (induction v arbitrary: d) (simp_all add: split_def Let_def utf8_handler_bom)

lemma utf8_handler_keeps_bom: "bom_seen (fst (utf8_handler d b)) = bom_seen d"
  by (simp add: utf8_handler_def utf8_lead_def split_def Let_def)

lemma utf8_run_keeps_bom: "bom_seen (fst (utf8_run d v)) = bom_seen d"
  by (induction v arbitrary: d) (simp_all add: split_def Let_def utf8_handler_keeps_bom)

lemma serialize_append:
  "serialize s (xs @ ys) =
     (fst (serialize (fst (serialize s xs)) ys), snd (serialize s xs) @ snd (serialize (fst (serialize s xs)) ys))"
  by (cases xs; cases ys) (simp_all add: serialize_def)

lemma decode_append:
  "TextDecoder_decode d (a @ b) =
     (fst (TextDecoder_decode (fst (TextDecoder_decode d a)) b),
      snd (TextDecoder_decode d a) @ snd (TextDecoder_decode (fst (TextDecoder_decode d a)) b))"
  by (simp add: TextDecoder_decode_def split_def Let_def utf8_run_append [of d a b] utf8_run_bom
      utf8_run_keeps_bom serialize_append)

lemma decode_Nil: "TextDecoder_decode d [] = (d, [])"
  by (simp add: TextDecoder_decode_def serialize_def)

lemma processLines_append:
  "processLines rt p (a @ b) =
     (fst (processLines rt (fst (processLines rt p a)) b),
      snd (processLines rt p a) @ snd (processLines rt (fst (processLines rt p a)) b))"
  by (induction a arbitrary: p) (simp_all add: split_def Let_def)

lemma readLoop_char:
  "nl \<notin> set (buffer r) \<Longrightarrow>
   readLoop rt (r, p) reads =
     ((\<lparr>decoder = fst (TextDecoder_decode (decoder r) (concat reads)),
        buffer = last_line (buffer r @ snd (TextDecoder_decode (decoder r) (concat reads)))\<rparr>,
       fst (processLines rt p
             (complete_lines (buffer r @ snd (TextDecoder_decode (decoder r) (concat reads)))))),
      snd (processLines rt p
             (complete_lines (buffer r @ snd (TextDecoder_decode (decoder r) (concat reads))))))"
proof (induction reads arbitrary: r p)
  case Nil
  then show ?case by (simp add: decode_Nil complete_lines_no_nl last_line_no_nl)
next
  case (Cons v vs)
  let ?d1 = "fst (TextDecoder_decode (decoder r) v)"
  let ?t1 = "snd (TextDecoder_decode (decoder r) v)"
  let ?b1 = "buffer r @ ?t1"
  let ?r1 = "\<lparr>decoder = ?d1, buffer = last_line ?b1\<rparr>"
  let ?p1 = "fst (processLines rt p (complete_lines ?b1))"
  let ?w1 = "snd (processLines rt p (complete_lines ?b1))"
  have step: "readStep rt (r, p) v = ((?r1, ?p1), ?w1)"
    by (simp add: readStep_def split_def Let_def complete_lines_def last_line_def)
  have inv: "nl \<notin> set (buffer ?r1)" by (simp add: last_line_has_no_nl)
  let ?T2 = "snd (TextDecoder_decode ?d1 (concat vs))"
  have dec: "TextDecoder_decode (decoder r) (v @ concat vs) =
      (fst (TextDecoder_decode ?d1 (concat vs)), ?t1 @ ?T2)"
    using decode_append [of "decoder r" v "concat vs"] by simp
  have c: "complete_lines (buffer r @ ?t1 @ ?T2)
      = complete_lines ?b1 @ complete_lines (last_line ?b1 @ ?T2)"
    using complete_lines_append [of ?b1 ?T2] by simp
  have l: "last_line (buffer r @ ?t1 @ ?T2) = last_line (last_line ?b1 @ ?T2)"
    using last_line_append [of ?b1 ?T2] by simp
  show ?case
    using Cons.IH [OF inv, of ?p1]
    by (simp add: step dec c l processLines_append [of rt p])
qed

lemma readLoop_initial:
  "readLoop rt initial reads =
     ((\<lparr>decoder = fst (TextDecoder_decode new_TextDecoder (concat reads)),
        buffer = last_line (decoded_text (concat reads))\<rparr>,
       fst (processLines rt (snd initial) (stream_lines reads))),
      snd (processLines rt (snd initial) (stream_lines reads)))"
  using readLoop_char [of "fst initial" rt "snd initial" reads]
  by (simp add: initial_def stream_lines_def decoded_text_def)

lemma decoded_chunks_lines:
  "decoded_chunks rt reads = chunks (fst (processLines rt (snd initial) (stream_lines reads)))"
  by (simp add: decoded_chunks_def readLoop_initial)

lemma streamSpeech_loop:
  "streamSpeech rt R (Stream reads None) =
     (let p = snd (fst (readLoop rt initial reads))
      in (snd (readLoop rt initial reads),
          and_then (assembleWav (chunks p) R) (\<lambda>audioBuffer.
            Inr \<lparr>audioBuffer = audioBuffer,
                 stats = \<lparr>timeToFirstChunk =
                            (case firstChunkTime p of
                               None \<Rightarrow> 0
                             | Some t \<Rightarrow> if t \<noteq> 0 then t - performance_now rt 0 else 0),
                          totalTime = performance_now rt (clock p) - performance_now rt 0\<rparr>\<rparr>)))"
  by (simp add: streamSpeech_def initial_def split_def Let_def)






lemma complete_lines_tail:
  "nl \<notin> set tail \<Longrightarrow> complete_lines (t @ tail) = complete_lines t"
  using complete_lines_append [of t tail] last_line_has_no_nl [of t]
  by (simp add: complete_lines_no_nl)


subsection \<open>One line\<close>

lemma processLine_blank: "String_trim line = [] \<Longrightarrow> processLine rt p line = (p, [])"
  by (simp add: processLine_def)

lemma processLine_malformed:
  "String_trim line \<noteq> [] \<Longrightarrow> JSON_parse rt line = None
     \<Longrightarrow> processLine rt p line = (p, [substring 0 100 line])"
  by (simp add: processLine_def)

lemma processLine_no_audio:
  "JSON_parse rt line = Some chunk \<Longrightarrow> audioContent_of chunk = Inr None
     \<Longrightarrow> processLine rt p line = (p, [])"
  by (simp add: processLine_def)

lemma processLine_falsy:
  "JSON_parse rt line = Some chunk \<Longrightarrow> audioContent_of chunk = Inr (Some a) \<Longrightarrow> \<not> truthy a
     \<Longrightarrow> processLine rt p line = (p, [])"
  by (simp add: processLine_def)

lemma processLine_string:
  "String_trim line \<noteq> [] \<Longrightarrow> JSON_parse rt line = Some chunk
     \<Longrightarrow> audioContent_of chunk = Inr (Some (JStr s)) \<Longrightarrow> s \<noteq> []
     \<Longrightarrow> processLine rt p line =
           ((markFirstChunk rt p)\<lparr>chunks := chunks p @ [stripWavHeader (base64_decode s)]\<rparr>, [])"
  by (simp add: processLine_def decodeBase64_def markFirstChunk_def)

lemma processLine_throws:
  "String_trim line \<noteq> [] \<Longrightarrow> JSON_parse rt line = Some chunk
     \<Longrightarrow> audioContent_of chunk = Inr (Some a) \<Longrightarrow> truthy a \<Longrightarrow> decodeBase64 rt a = Inl e
     \<Longrightarrow> processLine rt p line = (markFirstChunk rt p, [substring 0 100 line])"
  by (simp add: processLine_def)

lemma audioContent_of_record:
  "audioContent_of (JObj ms) =
     (case map_of (rev ms) (js ''result'') of
        None \<Rightarrow> Inr None
      | Some JNull \<Rightarrow> Inr None
      | Some (JObj rs) \<Rightarrow> Inr (map_of (rev rs) (js ''audioContent''))
      | Some v \<Rightarrow> Inr None)"
  by (simp add: audioContent_of_def and_then_def split: option.splits json.splits)

lemma audioContent_of_audio_record: "audioContent_of (audio_record a) = Inr (Some a)"
  by (simp add: audioContent_of_record audio_record_def)

lemma streamSpeech_lines:
  "streamSpeech rt R (Stream reads None) =
     (let p = fst (processLines rt (snd initial) (stream_lines reads))
      in (snd (processLines rt (snd initial) (stream_lines reads)),
          and_then (assembleWav (chunks p) R) (\<lambda>audioBuffer.
            Inr \<lparr>audioBuffer = audioBuffer,
                 stats = \<lparr>timeToFirstChunk =
                            (case firstChunkTime p of
                               None \<Rightarrow> 0
                             | Some t \<Rightarrow> if t \<noteq> 0 then t - performance_now rt 0 else 0),
                          totalTime = performance_now rt (clock p) - performance_now rt 0\<rparr>\<rparr>)))"
  by (simp add: streamSpeech_loop readLoop_initial)

subsection \<open>The clock and the statistics\<close>

lemma loop_inv_initial: "loop_inv rt (snd initial)"
  by (simp add: loop_inv_def initial_def)

lemma processLine_inv: "loop_inv rt p \<Longrightarrow> loop_inv rt (fst (processLine rt p line))"
  by (auto simp: processLine_def loop_inv_def markFirstChunk_def Let_def
      split: option.splits sum.splits)

lemma processLines_inv: "loop_inv rt p \<Longrightarrow> loop_inv rt (fst (processLines rt p ls))"
  by (induction ls arbitrary: p) (simp_all add: split_def Let_def processLine_inv)

lemma typed_truthy_string: "string_or_falsy a \<Longrightarrow> truthy a \<Longrightarrow> \<exists>s. a = JStr s"
  by (cases a) (simp_all add: string_or_falsy_def)

lemma processLine_cases:
  "fst (processLine rt p line) = p
   \<or> (\<exists>chunk a. JSON_parse rt line = Some chunk \<and> audioContent_of chunk = Inr (Some a)
         \<and> truthy a
         \<and> (case decodeBase64 rt a of
                Inl e \<Rightarrow> fst (processLine rt p line) = markFirstChunk rt p
              | Inr d \<Rightarrow> chunks (fst (processLine rt p line)) \<noteq> []))"
  by (auto simp: processLine_def Let_def split: option.splits sum.splits)

lemma processLine_typed:
  assumes "typed_record rt line" and "chunks p = [] \<longrightarrow> firstChunkTime p = None"
  shows "chunks (fst (processLine rt p line)) = [] \<longrightarrow> firstChunkTime (fst (processLine rt p line)) = None"
  using processLine_cases [of rt p line]
proof (elim disjE exE conjE)
  assume "fst (processLine rt p line) = p"
  with assms(2) show ?thesis by simp
next
  fix chunk a
  assume c: "JSON_parse rt line = Some chunk" "audioContent_of chunk = Inr (Some a)" "truthy a"
    and d: "case decodeBase64 rt a of
              Inl e \<Rightarrow> fst (processLine rt p line) = markFirstChunk rt p
            | Inr d \<Rightarrow> chunks (fst (processLine rt p line)) \<noteq> []"
  from assms(1) c have "string_or_falsy a" by (simp add: typed_record_def)
  with c(3) obtain s where "a = JStr s" using typed_truthy_string by blast
  then have "decodeBase64 rt a = Inr (base64_decode s)" by (simp add: decodeBase64_def)
  with d show ?thesis by simp
qed

lemma processLines_typed:
  "\<forall>line \<in> set ls. typed_record rt line \<Longrightarrow> chunks p = [] \<longrightarrow> firstChunkTime p = None
     \<Longrightarrow> chunks (fst (processLines rt p ls)) = []
           \<longrightarrow> firstChunkTime (fst (processLines rt p ls)) = None"
proof (induction ls arbitrary: p)
  case Nil
  then show ?case by simp
next
  case (Cons l ls)
  have "chunks (fst (processLine rt p l)) = [] \<longrightarrow> firstChunkTime (fst (processLine rt p l)) = None"
    using Cons.prems by (intro processLine_typed) simp_all
  then show ?case using Cons.IH [of "fst (processLine rt p l)"] Cons.prems(1)
    by (simp add: split_def Let_def)
qed

lemma stats_of_streamSpeech:
  assumes "streamSpeech rt R (Stream reads None) = (w, Inr out)"
  shows "timeToFirstChunk (stats out) =
           (case firstChunkTime (fst (processLines rt (snd initial) (stream_lines reads))) of
              None \<Rightarrow> 0 | Some t \<Rightarrow> if t \<noteq> 0 then t - performance_now rt 0 else 0)"
    and "totalTime (stats out) =
           performance_now rt (clock (fst (processLines rt (snd initial) (stream_lines reads))))
             - performance_now rt 0"
  using assms
  by (auto simp: streamSpeech_lines Let_def and_then_def split: sum.splits)

subsection \<open>The empty payload\<close>




subsection \<open>What the lines contribute, whatever the clock reads\<close>

lemma processLine_chunks:
  "chunks (fst (processLine rt p line)) = chunks p @ line_chunks rt line"
  by (auto simp: processLine_def line_chunks_def markFirstChunk_def Let_def
      split: option.splits sum.splits)

lemma processLine_warnings: "snd (processLine rt p line) = line_warnings rt line"
  by (auto simp: processLine_def line_warnings_def markFirstChunk_def Let_def
      split: option.splits sum.splits)

lemma Buffer_from_base64_cong:
  "Buffer_from_object rt' = Buffer_from_object rt \<Longrightarrow> Buffer_from_base64 rt' a = Buffer_from_base64 rt a"
  by (cases a) simp_all

lemma line_chunks_cong: "same_builtins rt rt' \<Longrightarrow> line_chunks rt' line = line_chunks rt line"
  by (auto simp: same_builtins_def processLine_def line_chunks_def markFirstChunk_def Let_def
      decodeBase64_def Buffer_from_base64_cong [of rt' rt]
      split: option.splits sum.splits)

lemma line_warnings_cong: "same_builtins rt rt' \<Longrightarrow> line_warnings rt' line = line_warnings rt line"
  by (auto simp: same_builtins_def processLine_def line_warnings_def markFirstChunk_def Let_def
      decodeBase64_def Buffer_from_base64_cong [of rt' rt]
      split: option.splits sum.splits)

lemma processLines_chunks:
  "chunks (fst (processLines rt p ls)) = chunks p @ concat (map (line_chunks rt) ls)"
  by (induction ls arbitrary: p) (simp_all add: split_def Let_def processLine_chunks)

lemma processLines_warnings:
  "snd (processLines rt p ls) = concat (map (line_warnings rt) ls)"
  by (induction ls arbitrary: p) (simp_all add: split_def Let_def processLine_warnings)

lemma decoded_chunks_closed:
  "decoded_chunks rt reads = concat (map (line_chunks rt) (stream_lines reads))"
  by (simp add: decoded_chunks_lines processLines_chunks initial_def)

lemma audio_of_streamSpeech:
  "audio_of (streamSpeech rt R (Stream reads None)) = assembleWav (decoded_chunks rt reads) R"
  by (simp add: audio_of_def streamSpeech_lines decoded_chunks_lines Let_def and_then_def
      split: sum.splits)

lemma console_of_streamSpeech:
  "fst (streamSpeech rt R (Stream reads None)) = concat (map (line_warnings rt) (stream_lines reads))"
  by (simp add: streamSpeech_lines Let_def processLines_warnings)

lemma stream_lines_single: "stream_lines [concat reads] = stream_lines reads"
  by (simp add: stream_lines_def)


subsection \<open>The examples, evaluated\<close>

lemmas ex_defs = audio_line_def number_line_def control_line_def quoted_def js_def to_bytes_def

lemmas dec_defs = decoded_text_def TextDecoder_decode_def new_TextDecoder_def utf8_handler_def
  utf8_lead_def serialize_def code_units_def Let_def

lemma ex_parse:
  "JSON_parse example_runtime (audio_line (js ''QUJD'')) = Some (audio_record (JStr (js ''QUJD'')))"
  "JSON_parse example_runtime (audio_line (js ''RUZH'')) = Some (audio_record (JStr (js ''RUZH'')))"
  "JSON_parse example_runtime (audio_line (js ''Q!UJ'')) = Some (audio_record (JStr (js ''Q!UJ'')))"
  "JSON_parse example_runtime (audio_line []) = Some (audio_record (JStr []))"
  "JSON_parse example_runtime number_line = Some (audio_record (JNum 5))"
  "JSON_parse example_runtime control_line = Some (JObj [(js ''result'', JObj [])])"
  "JSON_parse example_runtime (js ''{oops'') = None"
  by (simp_all add: example_runtime_def example_parse_def ex_defs)

lemma ex_trim:
  "String_trim (audio_line (js ''QUJD'')) \<noteq> []"
  "String_trim (audio_line (js ''RUZH'')) \<noteq> []"
  "String_trim (audio_line (js ''Q!UJ'')) \<noteq> []"
  "String_trim number_line \<noteq> []"
  "String_trim (js ''{oops'') \<noteq> []"
  "String_trim [0x3000] = []"
  by (simp_all add: String_trim_def isWhiteSpace_def ex_defs)

lemma ex_chunk:
  "stripWavHeader (base64_decode (js ''QUJD'')) = [65, 66, 67]"
  "stripWavHeader (base64_decode (js ''RUZH'')) = [69, 70, 71]"
  "stripWavHeader (base64_decode (js ''Q!UJ'')) = [65, 66]"
  by (simp_all add: base64_decode_def js_def unbase64_def strip_eq hasWavHeader_def)

lemma ex_line:
  "processLine example_runtime p (audio_line (js ''QUJD'')) =
     ((markFirstChunk example_runtime p)\<lparr>chunks := chunks p @ [[65, 66, 67]]\<rparr>, [])"
  "processLine example_runtime p (audio_line (js ''RUZH'')) =
     ((markFirstChunk example_runtime p)\<lparr>chunks := chunks p @ [[69, 70, 71]]\<rparr>, [])"
  "processLine example_runtime p (audio_line (js ''Q!UJ'')) =
     ((markFirstChunk example_runtime p)\<lparr>chunks := chunks p @ [[65, 66]]\<rparr>, [])"
  using processLine_string [OF ex_trim(1) ex_parse(1) audioContent_of_audio_record, where p = p]
    processLine_string [OF ex_trim(2) ex_parse(2) audioContent_of_audio_record, where p = p]
    processLine_string [OF ex_trim(3) ex_parse(3) audioContent_of_audio_record, where p = p]
  by (simp_all add: ex_chunk) (simp_all add: js_def)

lemma ex_line_number:
  "processLine example_runtime p number_line = (markFirstChunk example_runtime p, [substring 0 100 number_line])"
  using processLine_throws [OF ex_trim(4) ex_parse(5) audioContent_of_audio_record, where p = p and e = TypeError]
  by (simp add: decodeBase64_def)

lemma ex_line_other:
  "processLine example_runtime p (audio_line []) = (p, [])"
  "processLine example_runtime p control_line = (p, [])"
  "processLine example_runtime p (js ''{oops'') = (p, [js ''{oops''])"
  "processLine example_runtime p [0x3000] = (p, [])"
  using processLine_falsy [OF ex_parse(4) audioContent_of_audio_record, where p = p]
    processLine_no_audio [OF ex_parse(6), where p = p]
    processLine_malformed [OF ex_trim(5) ex_parse(7), where p = p]
    processLine_blank [OF ex_trim(6), where rt = example_runtime and p = p]
  by (simp_all add: audioContent_of_record substring_def) (simp_all add: js_def)

lemma ex_mark:
  "markFirstChunk example_runtime (snd initial) = \<lparr>chunks = [], firstChunkTime = Some 15, clock = 2\<rparr>"
  by (simp add: markFirstChunk_def initial_def example_runtime_def)

lemma ex_same: "same_builtins example_runtime example_runtime_late"
  by (simp add: same_builtins_def example_runtime_late_def)

lemma ex_clock: "monotone_clock example_runtime" "clock_from_origin example_runtime"
  by (simp_all add: monotone_clock_def clock_from_origin_def example_runtime_def)

lemma le_bytes_2: "le_bytes 2 v = [of_nat (v mod 256), of_nat (v div 256 mod 256)]"
proof -
  have "le_bytes (Suc (Suc 0)) v = [of_nat (v mod 256), of_nat (v div 256 mod 256)]"
    by simp
  then show ?thesis by (simp only: numeral_2_eq_2)
qed

lemma le_bytes_4:
  "le_bytes 4 v = [of_nat (v mod 256), of_nat (v div 256 mod 256),
                   of_nat (v div 256 div 256 mod 256), of_nat (v div 256 div 256 div 256 mod 256)]"
proof -
  have 4: "(4::nat) = Suc (Suc (Suc (Suc 0)))" by simp
  have "le_bytes (Suc (Suc (Suc (Suc 0)))) v =
          [of_nat (v mod 256), of_nat (v div 256 mod 256),
           of_nat (v div 256 div 256 mod 256), of_nat (v div 256 div 256 div 256 mod 256)]"
    by simp
  then show ?thesis by (simp only: 4)
qed

lemma ex_header:
  "assembleWav [] 48000 =
     Inr [82, 73, 70, 70, 36, 0, 0, 0, 87, 65, 86, 69, 102, 109, 116, 32, 16, 0, 0, 0, 1, 0, 1, 0,
          128, 187, 0, 0, 0, 119, 1, 0, 2, 0, 16, 0, 100, 97, 116, 97, 0, 0, 0, 0]"
  "assembleWav [[65, 66, 67]] 48000 =
     Inr [82, 73, 70, 70, 39, 0, 0, 0, 87, 65, 86, 69, 102, 109, 116, 32, 16, 0, 0, 0, 1, 0, 1, 0,
          128, 187, 0, 0, 0, 119, 1, 0, 2, 0, 16, 0, 100, 97, 116, 97, 3, 0, 0, 0, 65, 66, 67]"
  using assembleWav_shape [of 48000 "[]"] assembleWav_shape [of 48000 "[[65, 66, 67]]"]
  by (simp_all add: utf8_def le_bytes_2 le_bytes_4)

lemma ex_stream_split:
  "stream_lines [[0xE3, 0x80, 0x80, 0x0A] @ to_bytes (audio_line (js ''QUJD'')) @ [0x0A]]
     = [[0x3000], audio_line (js ''QUJD'')]"
  by (simp add: stream_lines_def complete_lines_def nl_def ex_defs dec_defs)

lemma ex_stream_one:
  "stream_lines [to_bytes (audio_line (js ''QUJD'')) @ [0x0A]] = [audio_line (js ''QUJD'')]"
  by (simp add: stream_lines_def complete_lines_def nl_def ex_defs dec_defs)

lemma ex_stream_control:
  "stream_lines [to_bytes control_line @ [0x0A]] = [control_line]"
  by (simp add: stream_lines_def complete_lines_def nl_def ex_defs dec_defs)

lemma ex_stream_number:
  "stream_lines [to_bytes number_line @ [0x0A]] = [number_line]"
  by (simp add: stream_lines_def complete_lines_def nl_def ex_defs dec_defs)

lemma ex_text_one:
  "decoded_text (to_bytes (audio_line (js ''QUJD'')) @ [0x0A]) = audio_line (js ''QUJD'') @ [nl]"
  "decoded_text (to_bytes (audio_line (js ''QUJD''))) = audio_line (js ''QUJD'')"
  "decoded_text (to_bytes (audio_line (js ''QUJD'')) @ [0x0A] @ to_bytes (audio_line (js ''RUZH'')))
     = (audio_line (js ''QUJD'') @ [nl]) @ audio_line (js ''RUZH'')"
  "decoded_text (to_bytes (audio_line (js ''QUJD'')) @ [0x0A] @ to_bytes (js ''{oops'') @ [0x0A]
                  @ to_bytes (audio_line (js ''RUZH'')) @ [0x0A])
     = (audio_line (js ''QUJD'') @ [nl]) @ js ''{oops'' @ [nl] @ (audio_line (js ''RUZH'') @ [nl])"
  "decoded_text (to_bytes (audio_line (js ''QUJD'')) @ [0x0A] @ to_bytes (audio_line (js ''RUZH'')) @ [0x0A])
     = (audio_line (js ''QUJD'') @ [nl]) @ (audio_line (js ''RUZH'') @ [nl])"
  "decoded_text [] = []"
  by (simp_all add: nl_def ex_defs dec_defs)


lemma ex_no_nl:
  "nl \<notin> set (audio_line (js ''QUJD''))" "nl \<notin> set (audio_line (js ''RUZH''))"
  "nl \<notin> set (js ''{oops'')"
  by (simp_all add: nl_def ex_defs)

lemma ex_progress:
  "processLines example_runtime (snd initial) [audio_line (js ''QUJD'')]
     = (\<lparr>chunks = [[65, 66, 67]], firstChunkTime = Some 15, clock = 2\<rparr>, [])"
  "processLines example_runtime (snd initial) [control_line] = (snd initial, [])"
  "processLines example_runtime (snd initial) [number_line]
     = (\<lparr>chunks = [], firstChunkTime = Some 15, clock = 2\<rparr>, [number_line])"
  "processLines example_runtime (snd initial) [] = (snd initial, [])"
  by (simp_all add: ex_line ex_line_other ex_line_number ex_mark)
     (simp_all add: initial_def substring_def ex_defs)

lemma ex_speech:
  "streamSpeech example_runtime 48000 (Stream [to_bytes (audio_line (js ''QUJD'')) @ [0x0A]] None) =
     ([], Inr \<lparr>audioBuffer =
                 [82, 73, 70, 70, 39, 0, 0, 0, 87, 65, 86, 69, 102, 109, 116, 32, 16, 0, 0, 0,
                  1, 0, 1, 0, 128, 187, 0, 0, 0, 119, 1, 0, 2, 0, 16, 0, 100, 97, 116, 97,
                  3, 0, 0, 0, 65, 66, 67],
               stats = \<lparr>timeToFirstChunk = 5, totalTime = 10\<rparr>\<rparr>)"
  by (simp only: streamSpeech_lines ex_stream_one ex_progress)
     (simp add: ex_header and_then_def example_runtime_def)

lemma ex_speech_control:
  "streamSpeech example_runtime 48000 (Stream [to_bytes control_line @ [0x0A]] None) =
     ([], Inr \<lparr>audioBuffer =
                 [82, 73, 70, 70, 36, 0, 0, 0, 87, 65, 86, 69, 102, 109, 116, 32, 16, 0, 0, 0,
                  1, 0, 1, 0, 128, 187, 0, 0, 0, 119, 1, 0, 2, 0, 16, 0, 100, 97, 116, 97,
                  0, 0, 0, 0],
               stats = \<lparr>timeToFirstChunk = 0, totalTime = 5\<rparr>\<rparr>)"
  by (simp only: streamSpeech_lines ex_stream_control ex_progress)
     (simp add: ex_header and_then_def example_runtime_def initial_def)

section \<open>The claims\<close>

subsection \<open>The WAV assembler\<close>

text \<open>
  C1 as it is stated, for every sample rate, does not hold. For a rate of \<open>2^31\<close> the byte
  rate is \<open>2^32\<close>, \<open>writeUInt32LE\<close> refuses it, and no buffer is returned. For a rate of one
  half a buffer is returned, and its bytes 24..28 hold 0: \<open>writeUInt32LE\<close> stores the
  integer part.
\<close>

theorem assembleWav_sample_rate_counterexample:
  "assembleWav [] 2147483648 = Inl RangeError
   \<and> assembleWav [] (1 / 2) =
       Inr [82, 73, 70, 70, 36, 0, 0, 0, 87, 65, 86, 69, 102, 109, 116, 32, 16, 0, 0, 0,
            1, 0, 1, 0, 0, 0, 0, 0, 1, 0, 0, 0, 2, 0, 16, 0, 100, 97, 116, 97, 0, 0, 0, 0]
   \<and> readUInt32LE
        [82, 73, 70, 70, 36, 0, 0, 0, 87, 65, 86, 69, 102, 109, 116, 32, 16, 0, 0, 0,
         1, 0, 1, 0, 0, 0, 0, 0, 1, 0, 0, 0, 2, 0, 16, 0, 100, 97, 116, 97, 0, 0, 0, 0] 24 = 0"
  by (simp add: assembleWav_def createWavHeader_def Buffer_alloc_def Buffer_write_def
      and_then_def utf8_def writeUInt32LE_def writeUInt16LE_def writeUIntLE_def Let_def
      Buffer_concat_def le_bytes_2 le_bytes_4 readUInt32LE_def)

text \<open>
  C1, amended. For every list of chunk buffers of total length \<open>D\<close> with \<open>D + 36 < 2^32\<close>
  and every integer sample rate \<open>R\<close> with \<open>0 \<le> R < 2^31\<close>, \<open>assembleWav\<close> returns a buffer
  \<open>W\<close> whose bytes 4..8 read little-endian are \<open>36 + D\<close>, bytes 40..44 are \<open>D\<close>, bytes 24..28
  are \<open>R\<close> and bytes 28..32 are \<open>R * 2\<close>; \<open>W\<close> is \<open>44 + D\<close> bytes long and the payload follows
  the header unchanged.
\<close>

theorem assembleWav_header_fields:
  assumes "R < 2 ^ 31" and "length (concat cs) + 36 < 2 ^ 32"
  shows "\<exists>W. assembleWav cs (real R) = Inr W
           \<and> readUInt32LE W 4 = 36 + length (concat cs)
           \<and> readUInt32LE W 40 = length (concat cs)
           \<and> readUInt32LE W 24 = R
           \<and> readUInt32LE W 28 = R * 2
           \<and> length W = 44 + length (concat cs)
           \<and> drop 44 W = concat cs"
proof -
  let ?D = "length (concat cs)"
  let ?riff = "utf8 ''RIFF'' @ le_bytes 4 (36 + ?D)"
  let ?fmt = "utf8 ''WAVE'' @ utf8 ''fmt '' @ le_bytes 4 16 @ le_bytes 2 1 @ le_bytes 2 1"
  let ?rest = "le_bytes 2 2 @ le_bytes 2 16 @ utf8 ''data''"
  let ?W = "utf8 ''RIFF'' @ le_bytes 4 (36 + ?D) @ utf8 ''WAVE'' @ utf8 ''fmt ''
          @ le_bytes 4 16 @ le_bytes 2 1 @ le_bytes 2 1 @ le_bytes 4 R @ le_bytes 4 (2 * R)
          @ le_bytes 2 2 @ le_bytes 2 16 @ utf8 ''data'' @ le_bytes 4 ?D @ concat cs"
  have W: "assembleWav cs (real R) = Inr ?W"
    by (rule assembleWav_shape [OF assms])
  have f4: "readUInt32LE ?W 4 = 36 + ?D"
    using assms(2) read_at [of "utf8 ''RIFF''" 4 "36 + ?D"] by (simp add: utf8_def)
  have f24: "readUInt32LE ?W 24 = R"
    using assms(1) read_at [of "?riff @ ?fmt" 24 R] by (simp add: utf8_def)
  have f28: "readUInt32LE ?W 28 = R * 2"
    using assms(1) read_at [of "?riff @ ?fmt @ le_bytes 4 R" 28 "2 * R"]
    by (simp add: utf8_def mult.commute)
  have f40: "readUInt32LE ?W 40 = ?D"
    using assms(2)
      read_at [of "?riff @ ?fmt @ le_bytes 4 R @ le_bytes 4 (2 * R) @ ?rest" 40 ?D]
    by (simp add: utf8_def)
  have len: "length ?W = 44 + ?D" by (simp add: utf8_def)
  have dr: "drop 44 ?W = concat cs" by (simp add: utf8_def)
  show ?thesis using W f4 f24 f28 f40 len dr by blast
qed

theorem assembleWav_header_fields_witness:
  "\<exists>W. assembleWav [[1, 2], [3]] 48000 = Inr W
       \<and> readUInt32LE W 4 = 39 \<and> readUInt32LE W 40 = 3
       \<and> readUInt32LE W 24 = 48000 \<and> readUInt32LE W 28 = 96000
       \<and> length W = 47 \<and> drop 44 W = [1, 2, 3]"
  using assembleWav_header_fields [of 48000 "[[1, 2], [3]]"] by (simp add: numeral_3_eq_3)




subsection \<open>The chunk decoder\<close>

text \<open>
  C3. For every byte stream, however it is cut into reads (also inside a JSON record or
  inside a multi-byte character) and whatever the clock reads meanwhile, the loop
  collects the same chunk sequence, and \<open>streamSpeech\<close> returns the same audio, as for the
  whole stream delivered in one read.
\<close>

theorem split_invariance:
  assumes "same_builtins rt rt'"
  shows "decoded_chunks rt' reads = decoded_chunks rt [concat reads]
       \<and> audio_of (streamSpeech rt' R (Stream reads None))
           = audio_of (streamSpeech rt R (Stream [concat reads] None))"
proof -
  have "line_chunks rt' = line_chunks rt"
    using line_chunks_cong [OF assms] by auto
  then have "decoded_chunks rt' reads = decoded_chunks rt [concat reads]"
    by (simp add: decoded_chunks_closed stream_lines_single)
  then show ?thesis by (simp add: audio_of_streamSpeech)
qed

text \<open>
  A stream cut inside the three bytes of U+3000 and inside the record gives the chunk
  \<open>ABC\<close>, as the uncut stream does.
\<close>

theorem split_invariance_witness:
  "same_builtins example_runtime example_runtime_late
   \<and> decoded_chunks example_runtime_late
     [[0xE3, 0x80], [0x80, 0x0A] @ take 10 (to_bytes (audio_line (js ''QUJD''))),
      drop 10 (to_bytes (audio_line (js ''QUJD''))) @ [0x0A]] = [[65, 66, 67]]
   \<and> decoded_chunks example_runtime
     [[0xE3, 0x80, 0x80, 0x0A] @ to_bytes (audio_line (js ''QUJD'')) @ [0x0A]] = [[65, 66, 67]]"
proof -
  have whole: "decoded_chunks example_runtime
     [[0xE3, 0x80, 0x80, 0x0A] @ to_bytes (audio_line (js ''QUJD'')) @ [0x0A]] = [[65, 66, 67]]"
    by (simp only: decoded_chunks_lines ex_stream_split)
       (simp add: ex_line ex_line_other ex_mark initial_def)
  have c: "concat [[0xE3, 0x80], [0x80, 0x0A] @ take 10 (to_bytes (audio_line (js ''QUJD''))),
      drop 10 (to_bytes (audio_line (js ''QUJD''))) @ [0x0A]]
     = [0xE3, 0x80, 0x80, 0x0A] @ to_bytes (audio_line (js ''QUJD'')) @ [0x0A]"
    by simp
  have "decoded_chunks example_runtime_late
     [[0xE3, 0x80], [0x80, 0x0A] @ take 10 (to_bytes (audio_line (js ''QUJD''))),
      drop 10 (to_bytes (audio_line (js ''QUJD''))) @ [0x0A]] = [[65, 66, 67]]"
    using split_invariance [OF ex_same, of
      "[[0xE3, 0x80], [0x80, 0x0A] @ take 10 (to_bytes (audio_line (js ''QUJD''))),
        drop 10 (to_bytes (audio_line (js ''QUJD''))) @ [0x0A]]" 0, THEN conjunct1]
    by (simp only: c whole)
  with whole ex_same show ?thesis by simp
qed




text \<open>
  C8. What follows the last newline of the stream is never processed: a stream whose text
  ends in an unterminated line \<open>tail\<close>, be it a complete record with audio, gives the same
  chunks, the same audio and the same console output as the stream without \<open>tail\<close>.
\<close>

theorem unterminated_last_line_is_dropped:
  assumes "decoded_text (concat reads) = decoded_text (concat reads') @ tail"
      and "nl \<notin> set tail"
      and "same_builtins rt rt'"
  shows "decoded_chunks rt reads = decoded_chunks rt' reads'
       \<and> audio_of (streamSpeech rt R (Stream reads None))
           = audio_of (streamSpeech rt' R (Stream reads' None))
       \<and> fst (streamSpeech rt R (Stream reads None)) = fst (streamSpeech rt' R (Stream reads' None))"
proof -
  have "stream_lines reads = stream_lines reads'"
    using complete_lines_tail [OF assms(2)] assms(1) by (simp add: stream_lines_def)
  moreover have "line_chunks rt' = line_chunks rt" "line_warnings rt' = line_warnings rt"
    using line_chunks_cong [OF assms(3)] line_warnings_cong [OF assms(3)] by auto
  ultimately show ?thesis
    by (simp add: decoded_chunks_closed audio_of_streamSpeech console_of_streamSpeech)
qed

theorem unterminated_last_line_is_dropped_witness:
  "nl \<notin> set (audio_line (js ''RUZH''))
   \<and> same_builtins example_runtime example_runtime_late
   \<and> decoded_chunks example_runtime
        [to_bytes (audio_line (js ''QUJD'')) @ [0x0A] @ to_bytes (audio_line (js ''RUZH''))]
       = [[65, 66, 67]]
   \<and> audio_of (streamSpeech example_runtime 48000
        (Stream [to_bytes (audio_line (js ''QUJD'')) @ [0x0A] @ to_bytes (audio_line (js ''RUZH''))] None))
       = audio_of (streamSpeech example_runtime_late 48000
        (Stream [to_bytes (audio_line (js ''QUJD'')) @ [0x0A]] None))"
proof -
  have h: "decoded_text (concat [to_bytes (audio_line (js ''QUJD'')) @ [0x0A]
                                   @ to_bytes (audio_line (js ''RUZH''))])
        = decoded_text (concat [to_bytes (audio_line (js ''QUJD'')) @ [0x0A]]) @ audio_line (js ''RUZH'')"
    using ex_text_one(1) ex_text_one(3) by simp
  have c1: "decoded_chunks example_runtime_late [to_bytes (audio_line (js ''QUJD'')) @ [0x0A]]
              = [[65, 66, 67]]"
    using line_chunks_cong [OF ex_same, of "audio_line (js ''QUJD'')"]
    by (simp only: decoded_chunks_closed ex_stream_one)
       (simp add: line_chunks_def ex_line)
  show ?thesis
    using unterminated_last_line_is_dropped [OF h ex_no_nl(2) ex_same, of 48000] c1 ex_no_nl(2)
      ex_same
    by simp
qed

text \<open>
  C10. A record whose \<open>result.audioContent\<close> is the empty string leaves the variables of
  the loop as they are (no chunk, no first-chunk time) and prints nothing, exactly as a
  record whose \<open>result\<close> has no \<open>audioContent\<close> at all.
\<close>

theorem empty_audioContent_is_skipped:
  assumes "JSON_parse rt line = Some (JObj ms)"
      and "map_of (rev ms) (js ''result'') = Some (JObj rs)"
      and "map_of (rev rs) (js ''audioContent'') = Some (JStr [])"
      and "JSON_parse rt line' = Some (JObj ms')"
      and "map_of (rev ms') (js ''result'') = Some (JObj rs')"
      and "map_of (rev rs') (js ''audioContent'') = None"
  shows "processLine rt p line = (p, []) \<and> processLine rt p line' = (p, [])"
proof -
  have "audioContent_of (JObj ms) = Inr (Some (JStr []))"
    using assms(2,3) by (simp add: audioContent_of_record)
  then have 1: "processLine rt p line = (p, [])"
    using assms(1) processLine_falsy [of rt line "JObj ms" "JStr []" p] by simp
  have "audioContent_of (JObj ms') = Inr None"
    using assms(5,6) by (simp add: audioContent_of_record)
  then have 2: "processLine rt p line' = (p, [])"
    using assms(4) by (rule processLine_no_audio [rotated])
  from 1 2 show ?thesis by simp
qed

theorem empty_audioContent_is_skipped_witness:
  "processLine example_runtime (snd initial) (audio_line []) = (snd initial, [])
   \<and> processLine example_runtime (snd initial) control_line = (snd initial, [])"
  using empty_audioContent_is_skipped
      [of example_runtime "audio_line []" "[(js ''result'', JObj [(js ''audioContent'', JStr [])])]"
          "[(js ''audioContent'', JStr [])]"
          control_line "[(js ''result'', JObj [])]" "[]" "snd initial"]
    ex_parse(4) ex_parse(6)
  by (simp add: audio_record_def)

subsection \<open>The whole pipeline and its statistics\<close>



text \<open>
  C6 as it is stated, for every completed stream, does not hold. The first-chunk time is
  taken before the audio is decoded: for the record \<open>{"result":{"audioContent":5}}\<close>
  \<open>Buffer.from\<close> throws a TypeError, which the loop catches, so no chunk is decoded, and yet
  \<open>timeToFirstChunk\<close> is 5 and not 0.
\<close>

theorem time_to_first_chunk_counterexample:
  "monotone_clock example_runtime \<and> clock_from_origin example_runtime
   \<and> decoded_chunks example_runtime [to_bytes number_line @ [0x0A]] = []
   \<and> streamSpeech example_runtime 48000 (Stream [to_bytes number_line @ [0x0A]] None) =
     ([number_line],
      Inr \<lparr>audioBuffer =
             [82, 73, 70, 70, 36, 0, 0, 0, 87, 65, 86, 69, 102, 109, 116, 32, 16, 0, 0, 0,
              1, 0, 1, 0, 128, 187, 0, 0, 0, 119, 1, 0, 2, 0, 16, 0, 100, 97, 116, 97,
              0, 0, 0, 0],
           stats = \<lparr>timeToFirstChunk = 5, totalTime = 10\<rparr>\<rparr>)"
proof -
  have "decoded_chunks example_runtime [to_bytes number_line @ [0x0A]] = []"
    by (simp only: decoded_chunks_lines ex_stream_number ex_progress) simp
  moreover have "streamSpeech example_runtime 48000 (Stream [to_bytes number_line @ [0x0A]] None) =
     ([number_line],
      Inr \<lparr>audioBuffer =
             [82, 73, 70, 70, 36, 0, 0, 0, 87, 65, 86, 69, 102, 109, 116, 32, 16, 0, 0, 0,
              1, 0, 1, 0, 128, 187, 0, 0, 0, 119, 1, 0, 2, 0, 16, 0, 100, 97, 116, 97,
              0, 0, 0, 0],
           stats = \<lparr>timeToFirstChunk = 5, totalTime = 10\<rparr>\<rparr>)"
    by (simp only: streamSpeech_lines ex_stream_number ex_progress)
       (simp add: ex_header and_then_def example_runtime_def)
  ultimately show ?thesis using ex_clock by simp
qed

text \<open>
  C6, amended. For every completed stream in which every \<open>audioContent\<close> that counts
  (is truthy) is a string, as \<open>TTSStreamChunk\<close> declares, and for a clock that never runs
  backwards and has no negative reading, the returned \<open>timeToFirstChunk\<close> is the clock
  reading taken at the first audio record minus the reading at the start when at least
  one chunk was decoded, is 0 when none was, and is never negative.
\<close>

theorem time_to_first_chunk:
  assumes "monotone_clock rt" and "clock_from_origin rt"
      and "\<forall>line \<in> set (stream_lines reads). typed_record rt line"
      and "streamSpeech rt R (Stream reads None) = (w, Inr out)"
  shows "(decoded_chunks rt reads \<noteq> []
            \<longrightarrow> timeToFirstChunk (stats out) = performance_now rt 1 - performance_now rt 0)
       \<and> (decoded_chunks rt reads = [] \<longrightarrow> timeToFirstChunk (stats out) = 0)
       \<and> 0 \<le> timeToFirstChunk (stats out)"
proof -
  let ?p = "fst (processLines rt (snd initial) (stream_lines reads))"
  have inv: "loop_inv rt ?p"
    by (rule processLines_inv [OF loop_inv_initial])
  have typed: "chunks ?p = [] \<longrightarrow> firstChunkTime ?p = None"
    using assms(3) by (intro processLines_typed) (simp_all add: initial_def)
  have m: "0 \<le> performance_now rt 0" "performance_now rt 0 \<le> performance_now rt 1"
    using assms(1,2) by (simp_all add: monotone_clock_def clock_from_origin_def)
  have c: "decoded_chunks rt reads = chunks ?p"
    by (simp add: decoded_chunks_lines)
  show ?thesis
  proof (cases "firstChunkTime ?p")
    case None
    then show ?thesis using inv c stats_of_streamSpeech(1) [OF assms(4)]
      by (simp add: loop_inv_def)
  next
    case (Some t)
    then have "chunks ?p \<noteq> []" using typed by auto
    moreover have "t = performance_now rt 1" using Some inv by (simp add: loop_inv_def)
    ultimately show ?thesis using Some m c stats_of_streamSpeech(1) [OF assms(4)]
      by auto
  qed
qed

theorem time_to_first_chunk_witness:
  "monotone_clock example_runtime \<and> clock_from_origin example_runtime
   \<and> decoded_chunks example_runtime [to_bytes (audio_line (js ''QUJD'')) @ [0x0A]] = [[65, 66, 67]]
   \<and> timeToFirstChunk (stats \<lparr>audioBuffer =
                 [82, 73, 70, 70, 39, 0, 0, 0, 87, 65, 86, 69, 102, 109, 116, 32, 16, 0, 0, 0,
                  1, 0, 1, 0, 128, 187, 0, 0, 0, 119, 1, 0, 2, 0, 16, 0, 100, 97, 116, 97,
                  3, 0, 0, 0, 65, 66, 67],
               stats = \<lparr>timeToFirstChunk = 5, totalTime = 10\<rparr>\<rparr>)
       = performance_now example_runtime 1 - performance_now example_runtime 0
   \<and> decoded_chunks example_runtime [to_bytes control_line @ [0x0A]] = []
   \<and> timeToFirstChunk (stats \<lparr>audioBuffer =
                 [82, 73, 70, 70, 36, 0, 0, 0, 87, 65, 86, 69, 102, 109, 116, 32, 16, 0, 0, 0,
                  1, 0, 1, 0, 128, 187, 0, 0, 0, 119, 1, 0, 2, 0, 16, 0, 100, 97, 116, 97,
                  0, 0, 0, 0],
               stats = \<lparr>timeToFirstChunk = 0, totalTime = 5\<rparr>\<rparr>) = 0"
proof -
  have c1: "decoded_chunks example_runtime [to_bytes (audio_line (js ''QUJD'')) @ [0x0A]] = [[65, 66, 67]]"
    by (simp only: decoded_chunks_lines ex_stream_one ex_progress) simp
  have c2: "decoded_chunks example_runtime [to_bytes control_line @ [0x0A]] = []"
    by (simp only: decoded_chunks_lines ex_stream_control ex_progress) (simp add: initial_def)
  have t1: "\<forall>line \<in> set (stream_lines [to_bytes (audio_line (js ''QUJD'')) @ [0x0A]]).
              typed_record example_runtime line"
    by (simp only: ex_stream_one)
       (simp add: typed_record_def ex_parse audioContent_of_audio_record string_or_falsy_def)
  have t2: "\<forall>line \<in> set (stream_lines [to_bytes control_line @ [0x0A]]).
              typed_record example_runtime line"
    by (simp only: ex_stream_control)
       (simp add: typed_record_def ex_parse audioContent_of_record)
  show ?thesis
    using time_to_first_chunk [OF ex_clock t1 ex_speech] time_to_first_chunk [OF ex_clock t2 ex_speech_control]
      c1 c2 ex_clock
    by simp
qed

text \<open>
  C7. For every completed stream and a clock that never runs backwards, the returned
  statistics satisfy \<open>totalTime \<ge> timeToFirstChunk\<close>; in particular when at least one
  audio chunk was received.
\<close>

theorem total_time_covers_first_chunk:
  assumes "monotone_clock rt" and "streamSpeech rt R (Stream reads None) = (w, Inr out)"
  shows "timeToFirstChunk (stats out) \<le> totalTime (stats out)"
proof -
  let ?p = "fst (processLines rt (snd initial) (stream_lines reads))"
  have inv: "loop_inv rt ?p"
    by (rule processLines_inv [OF loop_inv_initial])
  have m: "performance_now rt 0 \<le> performance_now rt 1" "performance_now rt 1 \<le> performance_now rt 2"
    using assms(1) by (simp_all add: monotone_clock_def)
  show ?thesis
  proof (cases "firstChunkTime ?p")
    case None
    then show ?thesis using inv m stats_of_streamSpeech [OF assms(2)]
      by (simp add: loop_inv_def)
  next
    case (Some t)
    then show ?thesis using inv m stats_of_streamSpeech [OF assms(2)]
      by (simp add: loop_inv_def)
  qed
qed

theorem total_time_covers_first_chunk_witness:
  "monotone_clock example_runtime
   \<and> streamSpeech example_runtime 48000 (Stream [to_bytes (audio_line (js ''QUJD'')) @ [0x0A]] None) =
     ([], Inr \<lparr>audioBuffer =
                 [82, 73, 70, 70, 39, 0, 0, 0, 87, 65, 86, 69, 102, 109, 116, 32, 16, 0, 0, 0,
                  1, 0, 1, 0, 128, 187, 0, 0, 0, 119, 1, 0, 2, 0, 16, 0, 100, 97, 116, 97,
                  3, 0, 0, 0, 65, 66, 67],
               stats = \<lparr>timeToFirstChunk = 5, totalTime = 10\<rparr>\<rparr>)
   \<and> (5 :: real) \<le> 10"
  using total_time_covers_first_chunk [OF ex_clock(1) ex_speech] ex_clock(1) ex_speech
  by simp

end
